theory Spec2Isabelle
  imports Main "HOL-Library.Sublist"
begin

chapter \<open>safaribooks.py: a shallow embedding\<close>

text \<open>
  The program downloads the chapters, stylesheets and images of a book from a web
  service and assembles an EPUB directory. Its methods are embedded below as HOL
  functions over an explicit \<open>state\<close> (the disk, the terminal, the attributes of the
  \<open>Display\<close> and \<open>SafariBooks\<close> objects) and an \<open>env\<close> (the network and the library
  functions whose code is not part of the program: \<open>urljoin\<close>, lxml's serialiser,
  \<open>random\<close>, \<open>os.walk\<close>). Every \<open>Display.exit\<close> and every exception the code can raise
  is a value of type \<open>fatal\<close> or \<open>py_exc\<close>. Calls of \<open>Display.log\<close> and \<open>Display.state\<close>
  (the log file and the progress bar) are left out.
\<close>

section \<open>Python strings\<close>

text \<open>\<open>sub in s\<close> for two strings.\<close>

fun is_substr :: "string \<Rightarrow> string \<Rightarrow> bool" where
  "is_substr sub [] = (sub = [])"
| "is_substr sub (c # cs) = (prefix sub (c # cs) \<or> is_substr sub cs)"

text \<open>\<open>s.replace(old, new)\<close>: every occurrence, left to right, without overlap.\<close>

fun replace_from :: "string \<Rightarrow> string \<Rightarrow> string \<Rightarrow> string" where
  "replace_from old new [] = []"
| "replace_from old new (c # cs) =
     (if old \<noteq> [] \<and> prefix old (c # cs)
      then new @ replace_from old new (drop (length old) (c # cs))
      else c # replace_from old new cs)"

definition py_replace :: "string \<Rightarrow> string \<Rightarrow> string \<Rightarrow> string" where
  "py_replace old new s =
     (if old = [] then new @ concat (map (\<lambda>c. c # new) s) else replace_from old new s)"

text \<open>\<open>s.split(sep)\<close> for a separator of one character.\<close>

fun split_chr :: "char \<Rightarrow> string \<Rightarrow> string list" where
  "split_chr sep [] = [[]]"
| "split_chr sep (c # cs) =
     (if c = sep then [] # split_chr sep cs
      else (case split_chr sep cs of [] \<Rightarrow> [[c]] | w # ws \<Rightarrow> (c # w) # ws))"


text \<open>\<open>str(n)\<close> for an integer, and the format \<open>{0:0>2}\<close>: at least two characters,
  filled with \<open>0\<close> on the left.\<close>

definition digit :: "nat \<Rightarrow> char" where
  "digit d = char_of (48 + d)"

fun str_nat :: "nat \<Rightarrow> string" where
  "str_nat n = (if n < 10 then [digit n] else str_nat (n div 10) @ [digit (n mod 10)])"

declare str_nat.simps [simp del]


definition fill2 :: "string \<Rightarrow> string" where
  "fill2 s = replicate (2 - length s) CHR ''0'' @ s"



section \<open>JSON values and the dynamic operations the code applies to them\<close>

text \<open>
  The value \<open>response.json()\<close> returns. An object is a list of bindings; \<open>map_of\<close>
  reads it and \<open>dict_keys\<close> are its keys. Numbers are the integers.
\<close>

datatype json =
    JNull
  | JBool bool
  | JNum int
  | JStr string
  | JList "json list"
  | JDict "(string \<times> json) list"

datatype py_exc =
  IndexError | KeyError | TypeError | ValueError | AttributeError | FileNotFoundError

definition dict_keys :: "(string \<times> json) list \<Rightarrow> string list" where
  "dict_keys d = remdups (map fst d)"

text \<open>\<open>isinstance(x, dict)\<close>.\<close>

fun is_dict :: "json \<Rightarrow> bool" where
  "is_dict (JDict d) = True"
| "is_dict _ = False"

text \<open>\<open>k in x\<close> for a string \<open>k\<close>: a substring of a string, an element of a list, a
  key of a dict; a \<open>TypeError\<close> on anything else.\<close>

fun py_in :: "string \<Rightarrow> json \<Rightarrow> py_exc + bool" where
  "py_in k (JStr s) = Inr (is_substr k s)"
| "py_in k (JList xs) = Inr (JStr k \<in> set xs)"
| "py_in k (JDict d) = Inr (k \<in> set (dict_keys d))"
| "py_in k _ = Inl TypeError"

text \<open>\<open>x[k]\<close> for a string \<open>k\<close>: only a dict can be indexed by a string.\<close>

fun py_getitem :: "json \<Rightarrow> string \<Rightarrow> py_exc + json" where
  "py_getitem (JDict d) k = (case map_of d k of None \<Rightarrow> Inl KeyError | Some v \<Rightarrow> Inr v)"
| "py_getitem _ k = Inl TypeError"

text \<open>\<open>len(x)\<close>.\<close>

fun py_len :: "json \<Rightarrow> py_exc + nat" where
  "py_len (JStr s) = Inr (length s)"
| "py_len (JList xs) = Inr (length xs)"
| "py_len (JDict d) = Inr (length (dict_keys d))"
| "py_len _ = Inl TypeError"

text \<open>The truth value of \<open>x\<close> in a condition.\<close>

fun py_truthy :: "json \<Rightarrow> bool" where
  "py_truthy JNull = False"
| "py_truthy (JBool b) = b"
| "py_truthy (JNum n) = (n \<noteq> 0)"
| "py_truthy (JStr s) = (s \<noteq> [])"
| "py_truthy (JList xs) = (xs \<noteq> [])"
| "py_truthy (JDict d) = (d \<noteq> [])"

section \<open>Failures, the environment and the state\<close>

text \<open>What \<open>Display.api_error\<close> returns: one of its three texts.\<close>

datatype api_message =
    Book_not_present
  | Out_of_session json
  | Use_cred_option

text \<open>The argument of a \<open>Display.exit\<close>, by the place of the call.\<close>

datatype exit_reason =
    Api api_message
  | Chapters_unavailable
  | Crawler_retrieve
  | Crawler_parse
  | Content_missing
  | Css_parse
  | Html_parse

text \<open>Both end the run with status 128: \<open>Display.exit\<close>, and an exception nobody
  catches, which \<open>sys.excepthook\<close> hands to \<open>Display.exit\<close>.\<close>

datatype fatal = Exit exit_reason | Unhandled py_exc

text \<open>The messages of \<open>Display.error\<close> and \<open>Display.info\<close> that the code below sends.\<close>

datatype report =
    Request_failed string
  | Css_retrieve_error string string
  | Image_retrieve_error string string

datatype notice =
    Chapter_exists string
  | Css_exists string
  | Image_exists string
  | Contents_already_downloaded

text \<open>A \<open><style>\<close> element: its \<open>data-template\<close> attribute and its text.\<close>

record style_elem =
  data_template :: "string option"
  style_text :: string

text \<open>The content node, as far as \<open>rewrite_links\<close> sees it: markup, and the links.\<close>

datatype piece = Markup string | Link string

text \<open>The parsed page, by the four XPath queries \<open>parse_html\<close> makes: the texts of
  \<open>//div[@class='controls']/a\<close>, the nodes \<open>//div[@id='sbo-rt-content']\<close>, the \<open>href\<close>
  of each \<open>//link[@rel='stylesheet']\<close> (\<open>None\<close>: the attribute is missing) and the
  \<open>//style\<close> elements.\<close>

record html_root =
  controls_text :: "string list"
  sbo_rt_content :: "piece list list"
  stylesheet_links :: "string option list"
  style_elems :: "style_elem list"

text \<open>A response of \<open>requests\<close>: \<open>json()\<close> (\<open>None\<close>: it raises), \<open>html.fromstring(text)\<close>
  (\<open>None\<close>: a parser error) and \<open>iter_content(1024)\<close>.\<close>

record response =
  json_body :: "json option"
  html_tree :: "html_root option"
  chunks :: "string list"

record env =
  net :: "string \<Rightarrow> response option"
  urljoin :: "string \<Rightarrow> string \<Rightarrow> string"
  coin :: "nat \<Rightarrow> bool"
  style_tostring :: "style_elem \<Rightarrow> string option"
  content_tostring :: "piece list \<Rightarrow> string option"
  walk_files :: "(string \<rightharpoonup> string) \<Rightarrow> string list"
  api_url :: string
  base_url :: string
  no_kindle :: bool

text \<open>\<open>net\<close> answers a request (\<open>None\<close>: \<open>requests\<close> raises); \<open>coin n\<close> is the outcome of
  the \<open>n\<close>-th test \<open>random() > 0.5\<close>; \<open>walk_files\<close> lists a directory as \<open>os.walk\<close> does.\<close>

datatype event = Started string | Joined string

record state =
  cookies_file :: bool
  oebps :: "string \<rightharpoonup> string"
  styles :: "string \<rightharpoonup> string"
  images_dir :: "string \<rightharpoonup> string"
  requests :: "string list"
  reported :: "report list"
  informed :: "notice list"
  in_error :: bool
  book_ad_info :: bool
  css_ad_info :: bool
  images_ad_info :: bool
  css :: "string list"
  images :: "string list"
  cover :: string
  filename :: json
  chapter_title :: json
  rolls :: nat
  done_queue :: nat
  events :: "event list"

text \<open>
  \<open>cookies_file\<close>: \<open>cookies.json\<close> exists. \<open>oebps\<close>, \<open>styles\<close>, \<open>images_dir\<close>: the files of
  \<open>OEBPS\<close>, \<open>OEBPS/Styles\<close> and \<open>OEBPS/Images\<close>, by name. \<open>requests\<close>: the URLs requested,
  in order. \<open>rolls\<close>: how often \<open>random()\<close> was called. \<open>events\<close>: the processes started
  and joined, in order.
\<close>

text \<open>\<open>os.path.isfile\<close> for a file name in one of the three directories.\<close>

definition isfile :: "(string \<rightharpoonup> string) \<Rightarrow> string \<Rightarrow> bool" where
  "isfile dir name = (dir name \<noteq> None)"

section \<open>Display\<close>

definition error :: "report \<Rightarrow> state \<Rightarrow> state" where
  "error r st = st\<lparr>in_error := True, reported := reported st @ [r]\<rparr>"

definition info :: "notice \<Rightarrow> state \<Rightarrow> state" where
  "info n st = st\<lparr>informed := informed st @ [n]\<rparr>"

text \<open>\<open>os.remove(COOKIES_FILE)\<close>.\<close>

definition remove_cookies :: "state \<Rightarrow> py_exc + state" where
  "remove_cookies st =
     (if cookies_file st then Inr (st\<lparr>cookies_file := False\<rparr>) else Inl FileNotFoundError)"

text \<open>\<open>"detail" in response and "Not found" in response["detail"]\<close>.\<close>

definition not_found_detail :: "json \<Rightarrow> py_exc + bool" where
  "not_found_detail response =
     (case py_in ''detail'' response of
        Inl e \<Rightarrow> Inl e
      | Inr False \<Rightarrow> Inr False
      | Inr True \<Rightarrow>
          (case py_getitem response ''detail'' of
             Inl e \<Rightarrow> Inl e
           | Inr d \<Rightarrow> py_in ''Not found'' d))"

definition api_error :: "json \<Rightarrow> state \<Rightarrow> (py_exc + api_message) \<times> state" where
  "api_error response st =
     (case not_found_detail response of
        Inl e \<Rightarrow> (Inl e, st)
      | Inr True \<Rightarrow> (Inr Book_not_present, st)
      | Inr False \<Rightarrow>
          (case remove_cookies st of
             Inl e \<Rightarrow> (Inl e, st)
           | Inr st' \<Rightarrow>
               (case py_in ''detail'' response of
                  Inl e \<Rightarrow> (Inl e, st')
                | Inr True \<Rightarrow>
                    (case py_getitem response ''detail'' of
                       Inl e \<Rightarrow> (Inl e, st')
                     | Inr d \<Rightarrow> (Inr (Out_of_session d), st'))
                | Inr False \<Rightarrow> (Inr Use_cred_option, st'))))"

text \<open>\<open>self.display.exit(self.display.api_error(response))\<close>.\<close>

definition exit_api_error :: "json \<Rightarrow> state \<Rightarrow> fatal \<times> state" where
  "exit_api_error response st =
     (case api_error response st of
        (Inl e, st') \<Rightarrow> (Unhandled e, st')
      | (Inr m, st') \<Rightarrow> (Exit (Api m), st'))"

section \<open>SafariBooks: the chapter list\<close>

definition requests_provider :: "env \<Rightarrow> string \<Rightarrow> state \<Rightarrow> response option \<times> state" where
  "requests_provider E url st =
     (let st' = st\<lparr>requests := requests st @ [url]\<rparr>
      in case net E url of
           None \<Rightarrow> (None, error (Request_failed url) st')
         | Some r \<Rightarrow> (Some r, st'))"

text \<open>\<open>"cover." in c["filename"]\<close>.\<close>

definition is_cover :: "json \<Rightarrow> py_exc + bool" where
  "is_cover c =
     (case py_getitem c ''filename'' of Inl e \<Rightarrow> Inl e | Inr f \<Rightarrow> py_in ''cover.'' f)"

text \<open>\<open>[c for c in results if "cover." in c["filename"]]\<close>: the first exception ends it.\<close>

fun covers_of :: "json list \<Rightarrow> py_exc + json list" where
  "covers_of [] = Inr []"
| "covers_of (c # cs) =
     (case is_cover c of
        Inl e \<Rightarrow> Inl e
      | Inr b \<Rightarrow>
          (case covers_of cs of
             Inl e \<Rightarrow> Inl e
           | Inr r \<Rightarrow> Inr (if b then c # r else r)))"

text \<open>\<open>for c in result: del results[results.index(c)]\<close>.\<close>

definition delete_each :: "json list \<Rightarrow> json list \<Rightarrow> json list" where
  "delete_each result results = fold remove1 result results"

text \<open>The relative URL of a page: \<open>"chapter/" + ("" if not page else "?page=%s" % page)\<close>.\<close>

definition chapter_page :: "nat \<Rightarrow> string" where
  "chapter_page page = ''chapter/'' @ (if page = 0 then [] else ''?page='' @ str_nat page)"

text \<open>
  \<open>get_book_chapters\<close> calls itself for the next page while \<open>response["next"]\<close> is true,
  which a service may answer for ever: the first argument bounds the number of pages
  requested, and \<open>None\<close> says that the bound was reached.
\<close>

fun get_book_chapters ::
  "nat \<Rightarrow> env \<Rightarrow> nat \<Rightarrow> state \<Rightarrow> ((fatal + json list) \<times> state) option" where
  "get_book_chapters 0 E page st = None"
| "get_book_chapters (Suc fuel) E page st =
     (case requests_provider E (urljoin E (api_url E) (chapter_page page)) st of
        (None, st1) \<Rightarrow> Some (Inl (Exit Chapters_unavailable), st1)
      | (Some resp, st1) \<Rightarrow>
     (case json_body resp of
        None \<Rightarrow> Some (Inl (Unhandled ValueError), st1)
      | Some response \<Rightarrow>
     (case response of
        JDict d \<Rightarrow>
          if length (dict_keys d) = 1
          then (case exit_api_error response st1 of (f, st2) \<Rightarrow> Some (Inl f, st2))
          else
     (case map_of d ''results'' of
        None \<Rightarrow> Some (Inl (Exit Chapters_unavailable), st1)
      | Some results \<Rightarrow>
     (case py_len results of
        Inl e \<Rightarrow> Some (Inl (Unhandled e), st1)
      | Inr 0 \<Rightarrow> Some (Inl (Exit Chapters_unavailable), st1)
      | Inr (Suc n) \<Rightarrow>
     (case results of
        JList rs \<Rightarrow>
     (case covers_of rs of
        Inl e \<Rightarrow> Some (Inl (Unhandled e), st1)
      | Inr result \<Rightarrow>
     (case map_of d ''next'' of
        None \<Rightarrow> Some (Inl (Unhandled KeyError), st1)
      | Some nxt \<Rightarrow>
          if py_truthy nxt
          then (case get_book_chapters fuel E (page + 1) st1 of
                  None \<Rightarrow> None
                | Some (Inl f, st2) \<Rightarrow> Some (Inl f, st2)
                | Some (Inr later, st2) \<Rightarrow>
                    Some (Inr (result @ delete_each result rs @ later), st2))
          else Some (Inr (result @ delete_each result rs), st1)))
      | _ \<Rightarrow> Some (Inl (Unhandled TypeError), st1))))
      | _ \<Rightarrow> (case exit_api_error response st1 of (f, st2) \<Rightarrow> Some (Inl f, st2)))))"

section \<open>SafariBooks: links and pages\<close>

definition link_replace :: "string \<Rightarrow> state \<Rightarrow> (py_exc + string) \<times> state" where
  "link_replace link st =
     (if link = [] then (Inl IndexError, st)
      else if hd link = CHR ''/'' \<and>
              (is_substr ''cover'' link \<or> is_substr ''images'' link \<or> is_substr ''graphics'' link
               \<or> drop (length link - 3) link \<in> set [''jpg'', ''jpeg'', ''png''])
      then (Inr (''Images/'' @ last (split_chr CHR ''/'' link)), st\<lparr>images := images st @ [link]\<rparr>)
      else if hd link \<notin> set [CHR ''/'', CHR ''h'']
      then (Inr (py_replace ''.html'' ''.xhtml'' link), st)
      else (Inr link, st))"

text \<open>\<open>book_content.rewrite_links(self.link_replace)\<close>: lxml calls the function on
  every link of the node, in document order, and stores what it returns.\<close>

fun rewrite_links :: "piece list \<Rightarrow> state \<Rightarrow> (py_exc + piece list) \<times> state" where
  "rewrite_links [] st = (Inr [], st)"
| "rewrite_links (Markup m # ps) st =
     (case rewrite_links ps st of
        (Inl e, st') \<Rightarrow> (Inl e, st')
      | (Inr ps', st') \<Rightarrow> (Inr (Markup m # ps'), st'))"
| "rewrite_links (Link l # ps) st =
     (case link_replace l st of
        (Inl e, st1) \<Rightarrow> (Inl e, st1)
      | (Inr l', st1) \<Rightarrow>
          (case rewrite_links ps st1 of
             (Inl e, st2) \<Rightarrow> (Inl e, st2)
           | (Inr ps', st2) \<Rightarrow> (Inr (Link l' # ps'), st2)))"

text \<open>The element \<open>parse_html\<close> writes for a stylesheet, from the value of its counter.\<close>

definition link_tag :: "nat \<Rightarrow> string" where
  \<open>link_tag stylesheet_count =
     ''<link href="Styles/Style'' @ fill2 (str_nat stylesheet_count) @
     ''.css" rel="stylesheet" type="text/css" />\<newline>''\<close>

text \<open>The loop over \<open>stylesheet_links\<close>, from the values of \<open>stylesheet_count\<close> and
  \<open>page_css\<close> before an iteration.\<close>

fun link_stylesheets ::
  "env \<Rightarrow> string option list \<Rightarrow> nat \<Rightarrow> string \<Rightarrow> state \<Rightarrow> (py_exc + string) \<times> state" where
  "link_stylesheets E [] stylesheet_count page_css st = (Inr page_css, st)"
| "link_stylesheets E (None # ss) stylesheet_count page_css st = (Inl KeyError, st)"
| "link_stylesheets E (Some href # ss) stylesheet_count page_css st =
     (let css_url = (if take 2 href = ''//'' then urljoin E ''https:'' href
                     else urljoin E (base_url E) href);
          st1 = (if css_url \<notin> set (css st) then st\<lparr>css := css st @ [css_url]\<rparr> else st)
      in link_stylesheets E ss (stylesheet_count + 1)
           (page_css @ link_tag (stylesheet_count + 1)) st1)"

text \<open>The loop over the \<open><style>\<close> elements.\<close>

fun inline_styles :: "env \<Rightarrow> style_elem list \<Rightarrow> string \<Rightarrow> fatal + string" where
  "inline_styles E [] page_css = Inr page_css"
| "inline_styles E (s # ss) page_css =
     (let s' = (case data_template s of
                  None \<Rightarrow> s
                | Some t \<Rightarrow> if t \<noteq> [] then s\<lparr>data_template := None, style_text := t\<rparr> else s)
      in case style_tostring E s' of
           None \<Rightarrow> Inl (Exit Css_parse)
         | Some x \<Rightarrow> inline_styles E ss (page_css @ x @ ''\<newline>''))"

definition parse_html :: "env \<Rightarrow> html_root \<Rightarrow> state \<Rightarrow> (fatal + string \<times> string) \<times> state" where
  "parse_html E root st =
     (let st0 = st\<lparr>rolls := Suc (rolls st)\<rparr>
      in if coin E (rolls st) \<and> controls_text root \<noteq> []
         then (case exit_api_error (JStr '' '') st0 of (f, st1) \<Rightarrow> (Inl f, st1))
         else
     (case sbo_rt_content root of
        [] \<Rightarrow> (Inl (Exit Content_missing), st0)
      | book_content # _ \<Rightarrow>
     (case link_stylesheets E (stylesheet_links root) 0 [] st0 of
        (Inl e, st1) \<Rightarrow> (Inl (Unhandled e), st1)
      | (Inr page_css, st1) \<Rightarrow>
     (case inline_styles E (style_elems root) page_css of
        Inl f \<Rightarrow> (Inl f, st1)
      | Inr page_css' \<Rightarrow>
     (case rewrite_links book_content st1 of
        (Inl e, st2) \<Rightarrow> (Inl (Unhandled e), st2)
      | (Inr content, st2) \<Rightarrow>
     (case content_tostring E content of
        None \<Rightarrow> (Inl (Exit Html_parse), st2)
      | Some xhtml \<Rightarrow> (Inr (page_css', xhtml), st2)))))))"

definition get_html :: "env \<Rightarrow> string \<Rightarrow> state \<Rightarrow> (fatal + html_root) \<times> state" where
  "get_html E url st =
     (case requests_provider E url st of
        (None, st1) \<Rightarrow> (Inl (Exit Crawler_retrieve), st1)
      | (Some resp, st1) \<Rightarrow>
          (case html_tree resp of
             None \<Rightarrow> (Inl (Exit Crawler_parse), st1)
           | Some root \<Rightarrow> (Inr root, st1)))"

text \<open>\<open>BASE_HTML.format(contents[0], contents[1])\<close>, where \<open>BASE_HTML\<close> is \<open>BASE_01_HTML\<close>,
  then \<open>KINDLE_HTML\<close> unless \<open>--no-kindle\<close> was given, then \<open>BASE_02_HTML\<close>.\<close>

definition BASE_01_HTML :: "string \<Rightarrow> string" where
  \<open>BASE_01_HTML c0 =
     ''<!DOCTYPE html>\<newline>'' @
     ''<html lang="en" xml:lang="en" xmlns="http://www.w3.org/1999/xhtml"'' @
     '' xmlns:xsi="http://www.w3.org/2001/XMLSchema-instance"'' @
     '' xsi:schemaLocation="http://www.w3.org/2002/06/xhtml2/'' @
     '' http://www.w3.org/MarkUp/SCHEMA/xhtml2.xsd"'' @
     '' xmlns:epub="http://www.idpf.org/2007/ops">\<newline>'' @
     ''<head>\<newline>'' @
     c0 @ ''\<newline>'' @
     ''<style type="text/css">'' @
     ''body{background-color:#fbfbfb!important;margin:1em;}'' @
     ''#sbo-rt-content *{text-indent:0pt!important;}''\<close>

definition KINDLE_HTML :: string where
  \<open>KINDLE_HTML =
     ''#sbo-rt-content *{word-wrap:break-word!important;'' @
     ''word-break:break-word!important;}#sbo-rt-content table,#sbo-rt-content pre'' @
     ''{overflow-x:unset!important;overflow:unset!important;'' @
     ''overflow-y:unset!important;white-space:pre-wrap!important;}''\<close>

definition BASE_02_HTML :: "string \<Rightarrow> string" where
  \<open>BASE_02_HTML c1 =
     ''</style>'' @
     ''</head>\<newline>'' @
     ''<body>'' @ c1 @ ''</body>\<newline></html>''\<close>

definition BASE_HTML :: "env \<Rightarrow> string \<Rightarrow> string \<Rightarrow> string" where
  "BASE_HTML E c0 c1 =
     BASE_01_HTML c0 @ (if \<not> no_kindle E then KINDLE_HTML else []) @ BASE_02_HTML c1"

text \<open>A method of \<open>str\<close> called on \<open>self.filename\<close>: an \<open>AttributeError\<close> on a value that
  is not a string.\<close>

fun filename_str :: "json \<Rightarrow> py_exc + string" where
  "filename_str (JStr f) = Inr f"
| "filename_str _ = Inl AttributeError"

definition save_page_html :: "env \<Rightarrow> string \<times> string \<Rightarrow> state \<Rightarrow> (py_exc + unit) \<times> state" where
  "save_page_html E contents st =
     (case filename_str (filename st) of
        Inl e \<Rightarrow> (Inl e, st)
      | Inr f \<Rightarrow>
          (let f' = py_replace ''.html'' ''.xhtml'' f
           in (Inr (), st\<lparr>filename := JStr f',
                           oebps := (oebps st)(f' \<mapsto> BASE_HTML E (fst contents) (snd contents))\<rparr>)))"

text \<open>\<open>xs.index(x)\<close>: \<open>None\<close> stands for its \<open>ValueError\<close>.\<close>

fun py_index :: "'a \<Rightarrow> 'a list \<Rightarrow> nat option" where
  "py_index x [] = None"
| "py_index x (y # ys) =
     (if x = y then Some 0 else map_option Suc (py_index x ys))"

text \<open>The branch of \<open>get\<close> for a chapter whose file exists.\<close>

definition chapter_exists :: "json list \<Rightarrow> json \<Rightarrow> string \<Rightarrow> state \<Rightarrow> (py_exc + unit) \<times> state" where
  "chapter_exists book_chapters next_chapter f' st =
     (if \<not> book_ad_info st
      then (case py_index next_chapter book_chapters of
              None \<Rightarrow> (Inl ValueError, st)
            | Some i \<Rightarrow>
                if next_chapter \<notin> set (take i book_chapters)
                then (Inr (), (info (Chapter_exists f') st)\<lparr>book_ad_info := True\<rparr>)
                else (Inr (), st))
      else (Inr (), st))"

text \<open>The branch of \<open>get\<close> for a chapter whose file does not exist:
  \<open>self.save_page_html(self.parse_html(self.get_html(urljoin(self.base_url, self.filename))))\<close>.\<close>

definition chapter_download :: "env \<Rightarrow> string \<Rightarrow> state \<Rightarrow> (fatal + unit) \<times> state" where
  "chapter_download E f st =
     (case get_html E (urljoin E (base_url E) f) st of
        (Inl x, st1) \<Rightarrow> (Inl x, st1)
      | (Inr root, st1) \<Rightarrow>
          (case parse_html E root st1 of
             (Inl x, st2) \<Rightarrow> (Inl x, st2)
           | (Inr contents, st2) \<Rightarrow>
               (case save_page_html E contents st2 of
                  (Inl e, st3) \<Rightarrow> (Inl (Unhandled e), st3)
                | (Inr u, st3) \<Rightarrow> (Inr (), st3))))"

text \<open>\<open>get\<close>, by recursion on \<open>self.chapters_queue\<close>, as the method calls itself after
  each chapter; \<open>book_chapters\<close> is \<open>self.book_chapters\<close>.\<close>

fun get :: "env \<Rightarrow> json list \<Rightarrow> json list \<Rightarrow> state \<Rightarrow> (fatal + unit) \<times> state" where
  "get E book_chapters [] st = (Inr (), st)"
| "get E book_chapters (next_chapter # chapters_queue) st =
     (case py_getitem next_chapter ''title'' of
        Inl e \<Rightarrow> (Inl (Unhandled e), st)
      | Inr title \<Rightarrow>
     (case py_getitem next_chapter ''filename'' of
        Inl e \<Rightarrow> (Inl (Unhandled e), st\<lparr>chapter_title := title\<rparr>)
      | Inr fname \<Rightarrow>
     (let st1 = st\<lparr>chapter_title := title, filename := fname\<rparr>
      in case filename_str fname of
           Inl e \<Rightarrow> (Inl (Unhandled e), st1)
         | Inr f \<Rightarrow>
             if isfile (oebps st1) (py_replace ''.html'' ''.xhtml'' f)
             then (case chapter_exists book_chapters next_chapter
                          (py_replace ''.html'' ''.xhtml'' f) st1 of
                     (Inl e, st2) \<Rightarrow> (Inl (Unhandled e), st2)
                   | (Inr u, st2) \<Rightarrow> get E book_chapters chapters_queue st2)
             else (case chapter_download E f st1 of
                     (Inl x, st2) \<Rightarrow> (Inl x, st2)
                   | (Inr u, st2) \<Rightarrow> get E book_chapters chapters_queue st2))))"

section \<open>SafariBooks: stylesheets and images\<close>

text \<open>
  The two operations run in a process of their own. They return what the process did to
  the state, and \<open>Inl\<close> when an exception ended it. After a failed request \<open>response\<close>
  is \<open>0\<close>: the file is opened, and \<open>response.iter_content\<close> raises.
\<close>

definition thread_download_css :: "env \<Rightarrow> string \<Rightarrow> state \<Rightarrow> (py_exc + unit) \<times> state" where
  "thread_download_css E url st =
     (case py_index url (css st) of
        None \<Rightarrow> (Inl ValueError, st)
      | Some i \<Rightarrow>
     (let css_file = ''Style'' @ fill2 (str_nat i) @ ''.css''
      in if isfile (styles st) css_file
         then (let st1 = (if \<not> css_ad_info st \<and> url \<notin> set (take i (css st))
                          then (info (Css_exists css_file) st)\<lparr>css_ad_info := True\<rparr>
                          else st)
               in (Inr (), st1\<lparr>done_queue := done_queue st1 + 1\<rparr>))
         else (case requests_provider E url st of
                 (None, st1) \<Rightarrow>
                   (let st2 = error (Css_retrieve_error css_file url) st1
                    in (Inl AttributeError, st2\<lparr>styles := (styles st2)(css_file \<mapsto> [])\<rparr>))
               | (Some resp, st1) \<Rightarrow>
                   (Inr (), st1\<lparr>styles := (styles st1)(css_file \<mapsto> concat (chunks resp)),
                                  done_queue := done_queue st1 + 1\<rparr>))))"



text \<open>
  \<open>multiprocessing.Process\<close>. \<open>proc.start()\<close> starts the process. The process runs the
  operation on its own copy of the two objects: what it does to the disk, the network,
  the terminal, the shared \<open>Value\<close>s and the queue stays, what it does to the attributes
  is lost, and an exception ends that process only. \<open>proc.join()\<close> returns when the
  process has ended, and the code never reads its exit code. The processes of a batch
  run one after the other here, in the order of their \<open>join\<close>.
\<close>

definition proc_start :: "string \<Rightarrow> state \<Rightarrow> state" where
  "proc_start arg st = st\<lparr>events := events st @ [Started arg]\<rparr>"

definition proc_join ::
  "(string \<Rightarrow> state \<Rightarrow> (py_exc + unit) \<times> state) \<Rightarrow> string \<Rightarrow> state \<Rightarrow> state" where
  "proc_join operation arg st =
     (let st' = snd (operation arg st)
      in st'\<lparr>events := events st' @ [Joined arg],
              in_error := in_error st, book_ad_info := book_ad_info st,
              css := css st, images := images st, cover := cover st,
              filename := filename st, chapter_title := chapter_title st,
              rolls := rolls st\<rparr>)"

text \<open>\<open>range(0, n, 5)\<close>.\<close>

definition range5 :: "nat \<Rightarrow> nat list" where
  "range5 n = map (\<lambda>k. 5 * k) [0 ..< (n + 4) div 5]"

text \<open>\<open>_start_multiprocessing\<close>; \<open>has_queue\<close> says that a \<open>done_queue\<close> was passed, and a
  new queue is empty.\<close>

function start_multiprocessing ::
  "(string \<Rightarrow> state \<Rightarrow> (py_exc + unit) \<times> state) \<Rightarrow> string list \<Rightarrow> bool \<Rightarrow> state \<Rightarrow> state" where
  "start_multiprocessing operation full_queue has_queue st =
     (let st0 = (if has_queue then st else st\<lparr>done_queue := 0\<rparr>)
      in if length full_queue > 5
         then fold (\<lambda>i s. start_multiprocessing operation (take 5 (drop i full_queue)) True s)
                (range5 (length full_queue)) st0
         else fold (proc_join operation) full_queue (fold proc_start full_queue st0))"
  by pat_completeness auto
termination
  by (relation "measure (\<lambda>(operation, full_queue, has_queue, st). length full_queue)") auto

declare start_multiprocessing.simps [simp del]

section \<open>SafariBooks: content.opf\<close>

text \<open>The fields of \<open>self.book_info\<close> that \<open>create_content_opf\<close> reads; of an author, a
  subject and a publisher it reads the \<open>name\<close>.\<close>

record book_info =
  title :: string
  isbn :: string
  description :: string
  rights :: string
  authors :: "string list"
  subjects :: "string list"
  publishers :: "string list"


















section \<open>SafariBooks: toc.ncx\<close>





chapter \<open>Properties\<close>

section \<open>Notions the properties are stated with\<close>

text \<open>
  The definitions of this section are not translations of code: they say what a
  property talks about (the nodes of a tree in pre-order, the batches of a queue, the
  number of processes running), and the theorems compare the translated code to them.
\<close>

text \<open>The state when \<open>__init__\<close> calls \<open>get\<close>: \<open>cookies.json\<close> is there, the book's
  directory is empty, nothing was requested, no stylesheet and no image is known.\<close>

definition init_state :: state where
  "init_state =
     \<lparr>cookies_file = True, oebps = Map.empty, styles = Map.empty, images_dir = Map.empty,
      requests = [], reported = [], informed = [], in_error = False, book_ad_info = False,
      css_ad_info = False, images_ad_info = False, css = [], images = [], cover = [],
      filename = JStr [], chapter_title = JStr [], rolls = 0, done_queue = 0, events = []\<rparr>"

text \<open>An environment for the examples: no request is answered, \<open>urljoin\<close> appends the
  relative reference to a base that ends with \<open>/\<close>, \<open>random()\<close> is never above 0.5, the
  serialiser writes the text and the links as they are, and the directories list as
  empty.\<close>

definition example_env :: env where
  "example_env =
     \<lparr>net = (\<lambda>u. None),
      urljoin = (\<lambda>base rel. base @ rel),
      coin = (\<lambda>n. False),
      style_tostring = (\<lambda>s. Some (style_text s)),
      content_tostring = (\<lambda>ps. Some (concat (map (\<lambda>p. case p of Markup m \<Rightarrow> m | Link l \<Rightarrow> l) ps))),
      walk_files = (\<lambda>dir. []),
      api_url = ''api/'',
      base_url = ''book/'',
      no_kindle = False\<rparr>"

subsection \<open>Pages\<close>

text \<open>A page with a content node and the given stylesheet links.\<close>

definition page_with_styles :: "string list \<Rightarrow> html_root" where
  "page_with_styles hrefs =
     \<lparr>controls_text = [], sbo_rt_content = [[Markup ''<p>text</p>'']],
      stylesheet_links = map Some hrefs, style_elems = []\<rparr>"

subsection \<open>Links\<close>



subsection \<open>The pages of the chapter list\<close>

text \<open>The URL \<open>get_book_chapters\<close> requests for a page, and what the service
  answers there: \<open>serves E page p\<close> says that the request succeeds and that \<open>json()\<close>
  of the response is \<open>p\<close>.\<close>

definition chapter_url :: "env \<Rightarrow> nat \<Rightarrow> string" where
  "chapter_url E page = urljoin E (api_url E) (chapter_page page)"

definition serves :: "env \<Rightarrow> nat \<Rightarrow> json \<Rightarrow> bool" where
  "serves E page p =
     (case net E (chapter_url E page) of
        None \<Rightarrow> False
      | Some resp \<Rightarrow> json_body resp = Some p)"

text \<open>A record whose file name contains \<open>cover.\<close>, and a record that has a file name
  the code can test. \<open>cover_first\<close> moves the former to the front, in their order.\<close>

definition cover_named :: "json \<Rightarrow> bool" where
  "cover_named c = (is_cover c = Inr True)"

definition has_filename :: "json \<Rightarrow> bool" where
  "has_filename c = (case is_cover c of Inl e \<Rightarrow> False | Inr b \<Rightarrow> True)"

definition cover_first :: "json list \<Rightarrow> json list" where
  "cover_first rs = filter cover_named rs @ filter (\<lambda>c. \<not> cover_named c) rs"

text \<open>The \<open>results\<close> and the \<open>next\<close> of a page.\<close>

fun page_results :: "json \<Rightarrow> json list" where
  "page_results (JDict d) = (case map_of d ''results'' of Some (JList rs) \<Rightarrow> rs | _ \<Rightarrow> [])"
| "page_results _ = []"

fun page_next :: "json \<Rightarrow> json" where
  "page_next (JDict d) = (case map_of d ''next'' of Some n \<Rightarrow> n | None \<Rightarrow> JNull)"
| "page_next _ = JNull"

text \<open>A page of data: a dict that does not have exactly one key, with a list of
  \<open>results\<close> that is not empty (each with a file name) and a \<open>next\<close>.\<close>

fun data_page :: "json \<Rightarrow> bool" where
  "data_page (JDict d) =
     (length (dict_keys d) \<noteq> 1
      \<and> (case map_of d ''results'' of
            Some (JList rs) \<Rightarrow> rs \<noteq> [] \<and> list_all has_filename rs
          | _ \<Rightarrow> False)
      \<and> map_of d ''next'' \<noteq> None)"
| "data_page _ = False"

text \<open>The \<open>next\<close> of a page is \<open>null\<close> or a URL, which is a string that is not empty.\<close>

fun is_url :: "json \<Rightarrow> bool" where
  "is_url (JStr u) = (u \<noteq> [])"
| "is_url _ = False"

text \<open>A page the code refuses: it is not a dict, or it is a dict with exactly one key,
  or it has no \<open>results\<close> or none in them.\<close>

definition no_results :: "(string \<times> json) list \<Rightarrow> bool" where
  "no_results d = (case map_of d ''results'' of None \<Rightarrow> True | Some r \<Rightarrow> py_len r = Inr 0)"

fun refused :: "json \<Rightarrow> bool" where
  "refused (JDict d) = (length (dict_keys d) = 1 \<or> no_results d)"
| "refused _ = True"

text \<open>The chapter list of a sequence of pages, and the URLs of the \<open>n\<close> pages from
  \<open>page\<close> on.\<close>

definition merged :: "json list \<Rightarrow> json list" where
  "merged ps = concat (map (\<lambda>p. cover_first (page_results p)) ps)"

definition urls :: "env \<Rightarrow> nat \<Rightarrow> nat \<Rightarrow> string list" where
  "urls E page n = map (chapter_url E) [page ..< page + n]"

text \<open>A service with two pages of chapters, \<open>p0\<close> at \<open>chapter/\<close> and \<open>p1\<close> at
  \<open>chapter/?page=1\<close>; it answers no other request.\<close>

definition two_pages :: "json \<Rightarrow> json \<Rightarrow> env" where
  "two_pages p0 p1 =
     example_env
       \<lparr>net := (\<lambda>u. if u = ''api/chapter/''
                   then Some \<lparr>json_body = Some p0, html_tree = None, chunks = []\<rparr>
                   else if u = ''api/chapter/?page=1''
                   then Some \<lparr>json_body = Some p1, html_tree = None, chunks = []\<rparr>
                   else None)\<rparr>"

text \<open>A chapter record and a page, as the service sends them.\<close>

definition chapter_rec :: "string \<Rightarrow> json" where
  "chapter_rec name = JDict [(''title'', JStr name), (''filename'', JStr name)]"

definition page_of :: "json list \<Rightarrow> json \<Rightarrow> json" where
  "page_of rs nxt = JDict [(''results'', JList rs), (''next'', nxt)]"

text \<open>Pages for the examples: three chapters with the cover second and a next page;
  one chapter and no next page; no chapter; one chapter and a next page.\<close>

definition page_a :: json where
  "page_a = page_of [chapter_rec ''ch01.html'', chapter_rec ''cover.html'', chapter_rec ''ch02.html'']
              (JStr ''api/chapter/?page=1'')"

definition page_b :: json where
  "page_b = page_of [chapter_rec ''ch03.html''] JNull"

definition page_empty :: json where
  "page_empty = page_of [] JNull"

definition page_c :: json where
  "page_c = page_of [chapter_rec ''ch03.html''] (JStr ''api/chapter/?page=2'')"

subsection \<open>The table of contents\<close>










subsection \<open>content.opf\<close>









subsection \<open>A download that fails\<close>









subsection \<open>Chapters on disk\<close>

text \<open>The chapter record has a title and a file name, and the file \<open>get\<close> would write
  for it exists in \<open>OEBPS\<close>.\<close>

definition materialized :: "state \<Rightarrow> json \<Rightarrow> bool" where
  "materialized st c =
     (case py_getitem c ''title'' of
        Inl e \<Rightarrow> False
      | Inr t \<Rightarrow>
          (case py_getitem c ''filename'' of
             Inr (JStr f) \<Rightarrow> isfile (oebps st) (py_replace ''.html'' ''.xhtml'' f)
           | _ \<Rightarrow> False))"

text \<open>Nothing was requested and no file was written, changed or removed between two
  states.\<close>

definition same_files :: "state \<Rightarrow> state \<Rightarrow> bool" where
  "same_files st st' =
     (requests st' = requests st \<and> oebps st' = oebps st \<and> styles st' = styles st
      \<and> images_dir st' = images_dir st \<and> cookies_file st' = cookies_file st)"

text \<open>The state of a second run: both chapters are on disk.\<close>

definition crawled :: state where
  "crawled = init_state\<lparr>oebps := [''ch01.xhtml'' \<mapsto> ''<html>1</html>'',
                                  ''ch02.xhtml'' \<mapsto> ''<html>2</html>'']\<rparr>"

subsection \<open>Batches of processes\<close>

text \<open>A queue cut into consecutive batches of five; the last batch holds what is left.\<close>

function batches :: "'a list \<Rightarrow> 'a list list" where
  "batches xs = (if xs = [] then [] else take 5 xs # batches (drop 5 xs))"
  by pat_completeness auto
termination
  by (relation "measure length") auto

declare batches.simps [simp del]

text \<open>What one batch does: every process is started, then every process is joined.
  \<open>batch_events\<close> are the events of that, and \<open>running\<close> counts the processes that were
  started and not yet joined at the end of a sequence of events.\<close>

definition run_batch ::
  "(string \<Rightarrow> state \<Rightarrow> (py_exc + unit) \<times> state) \<Rightarrow> string list \<Rightarrow> state \<Rightarrow> state" where
  "run_batch operation b st = fold (proc_join operation) b (fold proc_start b st)"

definition batch_events :: "string list \<Rightarrow> event list" where
  "batch_events b = map Started b @ map Joined b"

fun running :: "event list \<Rightarrow> int" where
  "running [] = 0"
| "running (Started a # es) = running es + 1"
| "running (Joined a # es) = running es - 1"

text \<open>Twelve URLs.\<close>

definition twelve :: "string list" where
  "twelve = [''a'', ''b'', ''c'', ''d'', ''e'', ''f'', ''g'', ''h'', ''i'', ''j'', ''k'', ''l'']"


section \<open>Small numbers as strings\<close>

lemma str_nat_small:
  "str_nat 0 = ''0''" "str_nat (Suc 0) = ''1''" "str_nat (Suc (Suc 0)) = ''2''"
  "str_nat 1 = ''1''" "str_nat 2 = ''2''" "str_nat 3 = ''3''"
  by code_simp+

section \<open>parse_html: the stylesheet links\<close>

text \<open>The links a page gets are numbered by their position in the page, from 1,
  whatever stylesheets were discovered before.\<close>

lemma link_stylesheets_numbers:
  "list_all (\<lambda>s. s \<noteq> None) ss \<Longrightarrow>
   fst (link_stylesheets E ss n page_css st) =
     Inr (page_css @ concat (map link_tag [Suc n ..< Suc (n + length ss)]))"
proof (induction ss arbitrary: n page_css st)
  case Nil
  show ?case by simp
next
  case (Cons s ss)
  then obtain href where s: "s = Some href" by auto
  have "[Suc n ..< Suc (n + length (s # ss))] = Suc n # [Suc (Suc n) ..< Suc (Suc n + length ss)]"
    by (simp add: upt_conv_Cons del: upt_Suc)
  then show ?case
    using Cons.IH [of "Suc n"] Cons.prems unfolding s
    by (simp add: Let_def del: upt_Suc)
qed

lemma link_tag_small:
  \<open>link_tag 1 = ''<link href="Styles/Style01.css" rel="stylesheet" type="text/css" />\<newline>''\<close>
  \<open>link_tag 2 = ''<link href="Styles/Style02.css" rel="stylesheet" type="text/css" />\<newline>''\<close>
  by (simp_all add: link_tag_def fill2_def str_nat_small)

text \<open>
  C1 fails on the code. The first chapter links \<open>a.css\<close> and \<open>b.css\<close>, the second only
  \<open>b.css\<close>. \<open>b.css\<close> is the second stylesheet discovered, and it is linked as \<open>Style02.css\<close>
  in the first chapter and as \<open>Style01.css\<close> in the second: the number is the counter of
  the page, not the position in \<open>self.css\<close> (which \<open>py_index\<close> gives, and by which
  \<open>_thread_download_css\<close> names the file).
\<close>

theorem shared_stylesheet_numbered_per_chapter:
  \<open>parse_html example_env (page_with_styles [''a.css'', ''b.css'']) init_state =
     (Inr (link_tag 1 @ link_tag 2, ''<p>text</p>''),
      init_state\<lparr>rolls := 1, css := [''book/a.css'', ''book/b.css'']\<rparr>)
   \<and> parse_html example_env (page_with_styles [''b.css''])
         (init_state\<lparr>rolls := 1, css := [''book/a.css'', ''book/b.css'']\<rparr>) =
     (Inr (link_tag 1, ''<p>text</p>''),
      init_state\<lparr>rolls := 2, css := [''book/a.css'', ''book/b.css'']\<rparr>)
   \<and> link_tag 1 = ''<link href="Styles/Style01.css" rel="stylesheet" type="text/css" />\<newline>''
   \<and> link_tag 2 = ''<link href="Styles/Style02.css" rel="stylesheet" type="text/css" />\<newline>''
   \<and> py_index ''book/b.css'' [''book/a.css'', ''book/b.css''] = Some 1\<close>
proof -
  have n: "link_tag (Suc (Suc 0)) = link_tag 2"
    by (simp add: numeral_2_eq_2)
  have a: "parse_html example_env (page_with_styles [''a.css'', ''b.css'']) init_state =
     (Inr (link_tag 1 @ link_tag 2, ''<p>text</p>''),
      init_state\<lparr>rolls := 1, css := [''book/a.css'', ''book/b.css'']\<rparr>)"
    by (simp add: parse_html_def page_with_styles_def example_env_def init_state_def Let_def n)
  have b: "parse_html example_env (page_with_styles [''b.css''])
         (init_state\<lparr>rolls := 1, css := [''book/a.css'', ''book/b.css'']\<rparr>) =
     (Inr (link_tag 1, ''<p>text</p>''),
      init_state\<lparr>rolls := 2, css := [''book/a.css'', ''book/b.css'']\<rparr>)"
    by (simp add: parse_html_def page_with_styles_def example_env_def init_state_def Let_def n)
  have c: "py_index ''book/b.css'' [''book/a.css'', ''book/b.css''] = Some 1"
    by simp
  show ?thesis
    using a b c link_tag_small by blast
qed

section \<open>Display.api_error\<close>

text \<open>On a dict whose \<open>detail\<close> is missing or a string, the cookies file is removed
  unless the detail contains \<open>Not found\<close>.\<close>

lemma in_dict_keys: "k \<in> set (dict_keys d) \<longleftrightarrow> map_of d k \<noteq> None"
  by (simp add: dict_keys_def map_of_eq_None_iff)

lemma api_error_dict_no_detail:
  "map_of d ''detail'' = None \<Longrightarrow>
   api_error (JDict d) st =
     (if cookies_file st then (Inr Use_cred_option, st\<lparr>cookies_file := False\<rparr>)
      else (Inl FileNotFoundError, st))"
  by (simp add: api_error_def not_found_detail_def in_dict_keys remove_cookies_def)

lemma api_error_dict_detail:
  "map_of d ''detail'' = Some (JStr s) \<Longrightarrow>
   api_error (JDict d) st =
     (if is_substr ''Not found'' s then (Inr Book_not_present, st)
      else if cookies_file st
      then (Inr (Out_of_session (JStr s)), st\<lparr>cookies_file := False\<rparr>)
      else (Inl FileNotFoundError, st))"
  by (simp add: api_error_def not_found_detail_def in_dict_keys remove_cookies_def)

text \<open>
  C10 fails on the code. A response that is \<open>null\<close> or a number is not a dict, so it is
  handed to \<open>api_error\<close>; \<open>"detail" in response\<close> raises a \<open>TypeError\<close> there, and so does
  \<open>response["detail"]\<close> on a string that contains \<open>detail\<close>. The run ends with that
  exception, and \<open>cookies.json\<close> is still there.
\<close>

theorem api_error_null_keeps_cookies:
  "api_error JNull st = (Inl TypeError, st)
   \<and> api_error (JNum n) st = (Inl TypeError, st)
   \<and> api_error (JStr ''no detail given'') st = (Inl TypeError, st)
   \<and> get_book_chapters 1 (two_pages JNull JNull) 0 init_state =
       Some (Inl (Unhandled TypeError), init_state\<lparr>requests := [''api/chapter/'']\<rparr>)
   \<and> cookies_file (init_state\<lparr>requests := [''api/chapter/'']\<rparr>)"
  by (simp add: api_error_def not_found_detail_def exit_api_error_def requests_provider_def
        two_pages_def example_env_def chapter_page_def init_state_def)

section \<open>link_replace\<close>













text \<open>The list the code compares the last three characters with holds \<open>jpeg\<close>, which
  no three characters equal: a link that only its extension \<open>jpeg\<close> makes an image is
  neither recorded nor rewritten.\<close>

lemma link_replace_jpeg_not_recorded:
  "link_replace ''/x/photo.jpeg'' init_state = (Inr ''/x/photo.jpeg'', init_state)"
  by (simp add: link_replace_def)

section \<open>get_book_chapters\<close>

text \<open>The two list operations: the covers are the records with a cover name, and
  deleting each of them from the results leaves the others, in their order.\<close>

lemma covers_of_filter:
  "list_all has_filename rs \<Longrightarrow> covers_of rs = Inr (filter cover_named rs)"
  by (induction rs) (auto simp: has_filename_def cover_named_def split: sum.splits)

lemma delete_each_append:
  "\<forall>y \<in> set ys. \<not> P y \<Longrightarrow>
   fold remove1 (filter P xs) (ys @ xs) = ys @ filter (\<lambda>x. \<not> P x) xs"
proof (induction xs arbitrary: ys)
  case Nil
  show ?case by simp
next
  case (Cons x xs)
  show ?case
  proof (cases "P x")
    case True
    then have "x \<notin> set ys" using Cons.prems by blast
    then have "remove1 x (ys @ x # xs) = ys @ xs" by (simp add: remove1_append)
    then show ?thesis using True Cons.IH [OF Cons.prems] by simp
  next
    case False
    then have "\<forall>y \<in> set (ys @ [x]). \<not> P y" using Cons.prems by simp
    from Cons.IH [OF this] show ?thesis using False by simp
  qed
qed

lemma delete_each_filter:
  "delete_each (filter P xs) xs = filter (\<lambda>x. \<not> P x) xs"
  using delete_each_append [of "[]" P xs] by (simp add: delete_each_def)

lemma requests_provider_Some:
  "net E url = Some resp \<Longrightarrow>
   requests_provider E url st = (Some resp, st\<lparr>requests := requests st @ [url]\<rparr>)"
  by (simp add: requests_provider_def)

text \<open>One call on a page of data.\<close>

lemma get_book_chapters_data_page:
  assumes "serves E page p" and "data_page p"
  shows "get_book_chapters (Suc fuel) E page st =
     (if py_truthy (page_next p)
      then (case get_book_chapters fuel E (page + 1)
                   (st\<lparr>requests := requests st @ [chapter_url E page]\<rparr>) of
              None \<Rightarrow> None
            | Some (Inl f, st2) \<Rightarrow> Some (Inl f, st2)
            | Some (Inr later, st2) \<Rightarrow> Some (Inr (cover_first (page_results p) @ later), st2))
      else Some (Inr (cover_first (page_results p)),
                 st\<lparr>requests := requests st @ [chapter_url E page]\<rparr>))"
proof -
  obtain resp where n: "net E (chapter_url E page) = Some resp" and j: "json_body resp = Some p"
    using assms(1) by (auto simp: serves_def split: option.splits)
  obtain d where p: "p = JDict d" using assms(2) by (cases p) auto
  obtain rs where r: "map_of d ''results'' = Some (JList rs)" and ne: "rs \<noteq> []"
    and hf: "list_all has_filename rs"
    using assms(2) unfolding p by (auto split: option.splits json.splits)
  obtain nxt where nx: "map_of d ''next'' = Some nxt"
    using assms(2) unfolding p by auto
  have k: "length (dict_keys d) \<noteq> 1" using assms(2) unfolding p by simp
  obtain m where len: "length rs = Suc m" using ne by (cases rs) auto
  show ?thesis
    using n j k r nx len
    by (simp add: requests_provider_Some chapter_url_def [symmetric] p covers_of_filter [OF hf]
          delete_each_filter cover_first_def
          split: option.splits sum.splits prod.splits)
qed

text \<open>One call on a request that fails, and on a page the code refuses.\<close>

lemma exit_api_error_requests: "requests (snd (exit_api_error r st)) = requests st"
  by (auto simp: exit_api_error_def api_error_def remove_cookies_def
        split: sum.splits bool.splits prod.splits if_splits)

lemma get_book_chapters_request_failed:
  "net E (chapter_url E page) = None \<Longrightarrow>
   get_book_chapters (Suc fuel) E page st =
     Some (Inl (Exit Chapters_unavailable),
           error (Request_failed (chapter_url E page))
             (st\<lparr>requests := requests st @ [chapter_url E page]\<rparr>))"
  by (simp add: requests_provider_def chapter_url_def)

lemma get_book_chapters_refused:
  assumes "serves E page q" and "refused q"
  shows "\<exists>f st'. get_book_chapters (Suc fuel) E page st = Some (Inl f, st')
           \<and> requests st' = requests st @ [chapter_url E page]"
proof -
  obtain resp where n: "net E (chapter_url E page) = Some resp" and j: "json_body resp = Some q"
    using assms(1) by (auto simp: serves_def split: option.splits)
  let ?st1 = "st\<lparr>requests := requests st @ [chapter_url E page]\<rparr>"
  obtain f st2 where x: "exit_api_error q ?st1 = (f, st2)" by force
  have rq: "requests st2 = requests st @ [chapter_url E page]"
    using exit_api_error_requests [of q ?st1] x by simp
  show ?thesis
  proof (cases q)
    case (JDict d)
    show ?thesis
    proof (cases "length (dict_keys d) = 1")
      case True
      then show ?thesis
        using n j x rq JDict
        by (simp add: requests_provider_Some chapter_url_def [symmetric])
    next
      case False
      then have "no_results d" using assms(2) JDict by simp
      then show ?thesis
        using n j False JDict
        by (auto simp: requests_provider_Some chapter_url_def [symmetric] no_results_def
              split: option.splits)
    qed
  qed (use n j x rq in \<open>simp_all add: requests_provider_Some chapter_url_def [symmetric]\<close>)
qed

text \<open>A run of pages of data whose \<open>next\<close> is true.\<close>

lemma get_book_chapters_prefix:
  assumes "\<forall>i<length ps. serves E (page + i) (ps ! i)"
    and "list_all data_page ps"
    and "list_all (\<lambda>p. py_truthy (page_next p)) ps"
  shows "get_book_chapters (length ps + fuel) E page st =
     (case get_book_chapters fuel E (page + length ps)
             (st\<lparr>requests := requests st @ urls E page (length ps)\<rparr>) of
        None \<Rightarrow> None
      | Some (Inl f, st2) \<Rightarrow> Some (Inl f, st2)
      | Some (Inr later, st2) \<Rightarrow> Some (Inr (merged ps @ later), st2))"
  using assms
proof (induction ps arbitrary: page st)
  case Nil
  show ?case
    by (auto simp: merged_def urls_def split: option.splits sum.splits prod.splits)
next
  case (Cons p ps)
  have s0: "serves E page p" using Cons.prems(1) by force
  have s: "\<forall>i<length ps. serves E (page + 1 + i) (ps ! i)"
    using Cons.prems(1) by force
  have d: "data_page p" "list_all data_page ps" using Cons.prems(2) by simp_all
  have t: "py_truthy (page_next p)" "list_all (\<lambda>p. py_truthy (page_next p)) ps"
    using Cons.prems(3) by simp_all
  let ?st1 = "st\<lparr>requests := requests st @ [chapter_url E page]\<rparr>"
  have u: "requests st @ chapter_url E page # urls E (Suc page) (length ps)
           = requests st @ urls E page (Suc (length ps))"
    by (simp add: urls_def upt_conv_Cons del: upt_Suc)
  define R where "R = get_book_chapters fuel E (Suc (page + length ps))
     (st\<lparr>requests := requests st @ urls E page (Suc (length ps))\<rparr>)"
  have st_eq: "?st1\<lparr>requests := requests ?st1 @ urls E (page + 1) (length ps)\<rparr>
     = st\<lparr>requests := requests st @ urls E page (Suc (length ps))\<rparr>"
    using u by simp
  have ih: "get_book_chapters (length ps + fuel) E (Suc page) ?st1 =
     (case R of
        None \<Rightarrow> None
      | Some (Inl f, st2) \<Rightarrow> Some (Inl f, st2)
      | Some (Inr later, st2) \<Rightarrow> Some (Inr (merged ps @ later), st2))"
    using Cons.IH [OF s d(2) t(2), of ?st1] unfolding st_eq R_def by simp
  have step: "get_book_chapters (Suc (length ps + fuel)) E page st =
     (case get_book_chapters (length ps + fuel) E (Suc page) ?st1 of
        None \<Rightarrow> None
      | Some (Inl f, st2) \<Rightarrow> Some (Inl f, st2)
      | Some (Inr later, st2) \<Rightarrow> Some (Inr (cover_first (page_results p) @ later), st2))"
    by (subst get_book_chapters_data_page [OF s0 d(1)]) (simp add: t(1))
  have m: "merged (p # ps) = cover_first (page_results p) @ merged ps"
    by (simp add: merged_def)
  have goal: "get_book_chapters (Suc (length ps + fuel)) E page st =
     (case R of
        None \<Rightarrow> None
      | Some (Inl f, st2) \<Rightarrow> Some (Inl f, st2)
      | Some (Inr later, st2) \<Rightarrow> Some (Inr (merged (p # ps) @ later), st2))"
    unfolding step ih m by (auto split: option.splits sum.splits prod.splits)
  show ?case
    using goal unfolding R_def by simp
qed

lemma is_url_truthy: "is_url j \<Longrightarrow> py_truthy j"
  by (cases j) auto

lemma get_book_chapters_pages:
  assumes "ps \<noteq> []"
    and "\<forall>i<length ps. serves E (page + i) (ps ! i)"
    and "list_all data_page ps"
    and "list_all (\<lambda>p. py_truthy (page_next p)) (butlast ps)"
    and "\<not> py_truthy (page_next (last ps))"
    and "length ps \<le> fuel"
  shows "get_book_chapters fuel E page st =
     Some (Inr (merged ps), st\<lparr>requests := requests st @ urls E page (length ps)\<rparr>)"
proof -
  obtain qs q where ps: "ps = qs @ [q]"
    using assms(1) by (cases ps rule: rev_cases) auto
  obtain k where fuel: "fuel = length qs + Suc k"
    using assms(6) unfolding ps by (auto simp: le_iff_add)
  have s: "\<forall>i<length qs. serves E (page + i) (qs ! i)"
  proof (intro allI impI)
    fix i assume i: "i < length qs"
    then have "serves E (page + i) (ps ! i)" using assms(2) unfolding ps by simp
    then show "serves E (page + i) (qs ! i)" using i unfolding ps by (simp add: nth_append)
  qed
  have d: "list_all data_page qs" "data_page q"
    using assms(3) unfolding ps by simp_all
  have t: "list_all (\<lambda>p. py_truthy (page_next p)) qs"
    using assms(4) unfolding ps by simp
  have nt: "\<not> py_truthy (page_next q)"
    using assms(5) unfolding ps by simp
  have sq: "serves E (page + length qs) q"
    using assms(2) unfolding ps by (auto simp: nth_append dest: spec [of _ "length qs"])
  let ?st1 = "st\<lparr>requests := requests st @ urls E page (length qs)\<rparr>"
  have fin: "get_book_chapters (Suc k) E (page + length qs) ?st1 =
     Some (Inr (cover_first (page_results q)),
           ?st1\<lparr>requests := requests ?st1 @ [chapter_url E (page + length qs)]\<rparr>)"
    by (subst get_book_chapters_data_page [OF sq d(2)]) (simp add: nt)
  have u: "urls E page (length qs) @ [chapter_url E (page + length qs)] = urls E page (length ps)"
    unfolding ps by (simp add: urls_def)
  have m: "merged qs @ cover_first (page_results q) = merged ps"
    unfolding ps by (simp add: merged_def)
  show ?thesis
    unfolding fuel get_book_chapters_prefix [OF s d(1) t] fin
    using u m by simp
qed

text \<open>
  C3. Let the service answer the requests for the pages \<open>page\<close>, \<open>page + 1\<close>, ... with the
  pages of data \<open>ps\<close>, of which all but the last have a URL as \<open>next\<close> and the last has
  \<open>null\<close>. Then \<open>get_book_chapters\<close>, allowed that many requests, requests each of these
  pages once, in order, and returns the concatenation, in that order, of the pages'
  results, those of each page with the records whose file name contains \<open>cover.\<close> moved
  to the front of that page's part, the order among them and among the others kept.
\<close>

theorem get_book_chapters_merges:
  assumes "ps \<noteq> []"
    and "\<forall>i<length ps. serves E (page + i) (ps ! i)"
    and "list_all data_page ps"
    and "list_all (\<lambda>p. is_url (page_next p)) (butlast ps)"
    and "page_next (last ps) = JNull"
    and "length ps \<le> fuel"
  shows "get_book_chapters fuel E page st =
           Some (Inr (concat (map (\<lambda>p. cover_first (page_results p)) ps)),
                 st\<lparr>requests := requests st @ map (chapter_url E) [page ..< page + length ps]\<rparr>)
         \<and> (\<forall>rs. cover_first rs = filter cover_named rs @ filter (\<lambda>c. \<not> cover_named c) rs)
         \<and> (\<forall>c f. py_getitem c ''filename'' = Inr (JStr f)
               \<longrightarrow> cover_named c = is_substr ''cover.'' f)"
proof -
  have t: "list_all (\<lambda>p. py_truthy (page_next p)) (butlast ps)"
    using assms(4) by (auto simp: list_all_iff is_url_truthy)
  have f: "\<not> py_truthy (page_next (last ps))"
    using assms(5) by simp
  show ?thesis
    using get_book_chapters_pages [OF assms(1) assms(2) assms(3) t f assms(6), of st]
    by (simp add: merged_def urls_def cover_first_def cover_named_def is_cover_def)
qed

text \<open>
  C4, as the code has it. After any number of pages of data with a true \<open>next\<close> (none,
  when the page is the first): if the request of the following page fails, the run
  ends with \<open>Chapters_unavailable\<close>; and if that page is answered with \<open>q\<close>, where \<open>q\<close> is
  either refused (not a dict, a dict with one key, no \<open>results\<close> or none in them) or a last
  page of data, then the retrieval fails exactly when \<open>q\<close> is refused and otherwise
  returns the chapter list of all pages. Either way every page was requested once.
\<close>

theorem get_book_chapters_fatal_iff:
  assumes "\<forall>i<length ps. serves E (page + i) (ps ! i)"
    and "list_all data_page ps"
    and "list_all (\<lambda>p. py_truthy (page_next p)) ps"
    and "length ps < fuel"
  shows "(net E (chapter_url E (page + length ps)) = None \<longrightarrow>
            (\<exists>st'. get_book_chapters fuel E page st = Some (Inl (Exit Chapters_unavailable), st')
               \<and> requests st' = requests st @ urls E page (Suc (length ps))))
         \<and> (\<forall>q. serves E (page + length ps) q
                  \<and> (refused q \<or> data_page q \<and> \<not> py_truthy (page_next q))
               \<longrightarrow> (\<exists>x st'. get_book_chapters fuel E page st = Some (x, st')
                      \<and> requests st' = requests st @ urls E page (Suc (length ps))
                      \<and> (isl x \<longleftrightarrow> refused q)
                      \<and> (\<not> refused q \<longrightarrow> x = Inr (merged (ps @ [q])))))"
proof -
  obtain k where fuel: "fuel = length ps + Suc k"
    using assms(4) by (auto simp: less_iff_Suc_add)
  let ?n = "page + length ps"
  let ?st1 = "st\<lparr>requests := requests st @ urls E page (length ps)\<rparr>"
  note pre = get_book_chapters_prefix [OF assms(1) assms(2) assms(3), of "Suc k" st]
  have u: "urls E page (length ps) @ [chapter_url E ?n] = urls E page (Suc (length ps))"
    by (simp add: urls_def)
  have a: "\<exists>st'. get_book_chapters fuel E page st = Some (Inl (Exit Chapters_unavailable), st')
               \<and> requests st' = requests st @ urls E page (Suc (length ps))"
    if "net E (chapter_url E ?n) = None"
    unfolding fuel pre get_book_chapters_request_failed [OF that]
    using u by (simp add: error_def)
  have b: "\<exists>x st'. get_book_chapters fuel E page st = Some (x, st')
                      \<and> requests st' = requests st @ urls E page (Suc (length ps))
                      \<and> (isl x \<longleftrightarrow> refused q)
                      \<and> (\<not> refused q \<longrightarrow> x = Inr (merged (ps @ [q])))"
    if sq: "serves E ?n q" and c: "refused q \<or> data_page q \<and> \<not> py_truthy (page_next q)" for q
  proof (cases "refused q")
    case True
    obtain f st' where r: "get_book_chapters (Suc k) E ?n ?st1 = Some (Inl f, st')"
      and rq: "requests st' = requests ?st1 @ [chapter_url E ?n]"
      using get_book_chapters_refused [OF sq True, of k ?st1] by blast
    show ?thesis
      unfolding fuel pre r using True rq u by simp
  next
    case False
    then have d: "data_page q" and nt: "\<not> py_truthy (page_next q)" using c by auto
    have fin: "get_book_chapters (Suc k) E ?n ?st1 =
       Some (Inr (cover_first (page_results q)),
             ?st1\<lparr>requests := requests ?st1 @ [chapter_url E ?n]\<rparr>)"
      by (subst get_book_chapters_data_page [OF sq d]) (simp add: nt)
    show ?thesis
      unfolding fuel pre fin using False u by (simp add: merged_def)
  qed
  show ?thesis using a b by blast
qed

text \<open>The examples.\<close>

lemma chapter_url_two_pages:
  "chapter_url (two_pages p0 p1) 0 = ''api/chapter/''"
  "chapter_url (two_pages p0 p1) (Suc 0) = ''api/chapter/?page=1''"
  "chapter_url (two_pages p0 p1) (Suc (Suc 0)) = ''api/chapter/?page=2''"
  by (simp_all add: chapter_url_def two_pages_def example_env_def chapter_page_def str_nat_small)

lemma serves_two_pages:
  "serves (two_pages p0 p1) 0 p0"
  "serves (two_pages p0 p1) (Suc 0) p1"
  "net (two_pages p0 p1) (chapter_url (two_pages p0 p1) (Suc (Suc 0))) = None"
  by (simp_all add: serves_def chapter_url_two_pages) (simp_all add: two_pages_def example_env_def)

lemma example_pages:
  "data_page page_a" "data_page page_b" "data_page page_c"
  "is_url (page_next page_a)" "page_next page_b = JNull" "is_url (page_next page_c)"
  "refused page_empty"
  by (simp_all add: page_a_def page_b_def page_c_def page_empty_def page_of_def chapter_rec_def
        dict_keys_def has_filename_def is_cover_def no_results_def)

text \<open>C3 at the service with the pages \<open>page_a\<close> and \<open>page_b\<close>.\<close>

theorem get_book_chapters_merges_witness:
  "get_book_chapters 2 (two_pages page_a page_b) 0 init_state =
     Some (Inr [chapter_rec ''cover.html'', chapter_rec ''ch01.html'', chapter_rec ''ch02.html'',
                chapter_rec ''ch03.html''],
           init_state\<lparr>requests := [''api/chapter/'', ''api/chapter/?page=1'']\<rparr>)"
proof -
  have s: "\<forall>i<length [page_a, page_b].
             serves (two_pages page_a page_b) (0 + i) ([page_a, page_b] ! i)"
    by (simp add: All_less_Suc serves_two_pages)
  have m: "concat (map (\<lambda>p. cover_first (page_results p)) [page_a, page_b]) =
     [chapter_rec ''cover.html'', chapter_rec ''ch01.html'', chapter_rec ''ch02.html'',
      chapter_rec ''ch03.html'']"
    by (simp add: page_a_def page_b_def page_of_def cover_first_def cover_named_def is_cover_def
          chapter_rec_def)
  show ?thesis
    using get_book_chapters_merges [of "[page_a, page_b]" "two_pages page_a page_b" 0 2 init_state]
      s m
    by (simp add: example_pages chapter_url_two_pages init_state_def)
qed

text \<open>
  C4 as it was stated fails: both pages are dicts with two keys and the first page has
  results, yet the retrieval ends with \<open>Chapters_unavailable\<close>, because the second page
  has none.
\<close>

theorem later_page_without_results_is_fatal:
  "is_dict page_a \<and> py_len page_a = Inr 2 \<and> page_results page_a \<noteq> []
   \<and> is_dict page_empty \<and> py_len page_empty = Inr 2
   \<and> get_book_chapters 2 (two_pages page_a page_empty) 0 init_state =
       Some (Inl (Exit Chapters_unavailable),
             init_state\<lparr>requests := [''api/chapter/'', ''api/chapter/?page=1'']\<rparr>)"
  by (simp add: eval_nat_numeral page_a_def page_empty_def page_of_def chapter_rec_def
        dict_keys_def requests_provider_def two_pages_def example_env_def chapter_page_def str_nat_small
        is_cover_def init_state_def)

text \<open>C4, as the code has it, at three services: the second page has no results; the
  second page is the last page of data; the third page is not answered.\<close>

theorem get_book_chapters_fatal_iff_witness:
  "(\<exists>f st'. get_book_chapters 2 (two_pages page_a page_empty) 0 init_state = Some (Inl f, st')
       \<and> requests st' = [''api/chapter/'', ''api/chapter/?page=1''])
   \<and> (\<exists>st'. get_book_chapters 2 (two_pages page_a page_b) 0 init_state =
                Some (Inr (merged [page_a, page_b]), st')
       \<and> requests st' = [''api/chapter/'', ''api/chapter/?page=1''])
   \<and> (\<exists>st'. get_book_chapters 3 (two_pages page_a page_c) 0 init_state =
                Some (Inl (Exit Chapters_unavailable), st')
       \<and> requests st' = [''api/chapter/'', ''api/chapter/?page=1'', ''api/chapter/?page=2''])"
proof -
  have u2: "urls E 0 (Suc (Suc 0)) = [chapter_url E 0, chapter_url E (Suc 0)]" for E
    by (simp add: urls_def)
  have u3: "urls E 0 (Suc (Suc (Suc 0))) =
              [chapter_url E 0, chapter_url E (Suc 0), chapter_url E (Suc (Suc 0))]" for E
    by (simp add: urls_def)
  have a: "\<exists>f st'. get_book_chapters 2 (two_pages page_a page_empty) 0 init_state = Some (Inl f, st')
       \<and> requests st' = [''api/chapter/'', ''api/chapter/?page=1'']"
    using get_book_chapters_fatal_iff [of "[page_a]" "two_pages page_a page_empty" 0 2 init_state]
    by (simp add: serves_two_pages example_pages is_url_truthy u2 chapter_url_two_pages
          init_state_def)
      (metis example_pages(7) isl_def serves_two_pages(2))
  have b: "\<exists>st'. get_book_chapters 2 (two_pages page_a page_b) 0 init_state =
                Some (Inr (merged [page_a, page_b]), st')
       \<and> requests st' = [''api/chapter/'', ''api/chapter/?page=1'']"
  proof -
    have nr: "\<not> refused page_b"
      by (simp add: page_b_def page_of_def dict_keys_def no_results_def)
    have nt: "\<not> py_truthy (page_next page_b)"
      by (simp add: example_pages)
    have "\<exists>x st'. get_book_chapters 2 (two_pages page_a page_b) 0 init_state = Some (x, st')
            \<and> requests st' = requests init_state @ urls (two_pages page_a page_b) 0 (Suc (length [page_a]))
            \<and> (isl x \<longleftrightarrow> refused page_b)
            \<and> (\<not> refused page_b \<longrightarrow> x = Inr (merged ([page_a] @ [page_b])))"
      using get_book_chapters_fatal_iff [of "[page_a]" "two_pages page_a page_b" 0 2 init_state]
        serves_two_pages(2) [of page_a page_b] nt
      by (simp add: serves_two_pages example_pages is_url_truthy)
    then show ?thesis
      using nr by (auto simp: u2 chapter_url_two_pages init_state_def)
  qed
  have c: "\<exists>st'. get_book_chapters 3 (two_pages page_a page_c) 0 init_state =
                Some (Inl (Exit Chapters_unavailable), st')
       \<and> requests st' = [''api/chapter/'', ''api/chapter/?page=1'', ''api/chapter/?page=2'']"
  proof -
    have n2: "net (two_pages page_a page_c) ''api/chapter/?page=2'' = None"
      by (simp add: two_pages_def example_env_def)
    show ?thesis
      using get_book_chapters_fatal_iff
              [of "[page_a, page_c]" "two_pages page_a page_c" 0 3 init_state]
      by (simp add: All_less_Suc serves_two_pages example_pages is_url_truthy u3
            chapter_url_two_pages init_state_def n2)
  qed
  show ?thesis using a b c by blast
qed

section \<open>parse_toc\<close>









section \<open>create_content_opf\<close>











section \<open>get\<close>

lemma py_index_Some: "x \<in> set xs \<Longrightarrow> \<exists>i. py_index x xs = Some i"
  by (induction xs) auto

lemma materialized_same_files:
  "oebps st' = oebps st \<Longrightarrow> materialized st' c = materialized st c"
  by (simp add: materialized_def split: sum.splits json.splits)

text \<open>The step of \<open>get\<close> for a chapter whose file exists, and a queue of such chapters.\<close>

lemma get_chapter_exists:
  assumes "materialized st c" and "c \<in> set book_chapters"
  shows "\<exists>st2. get E book_chapters (c # chapters_queue) st = get E book_chapters chapters_queue st2
           \<and> same_files st st2"
proof -
  obtain t where t: "py_getitem c ''title'' = Inr t"
    using assms(1) by (auto simp: materialized_def split: sum.splits)
  obtain f where f: "py_getitem c ''filename'' = Inr (JStr f)"
    and ex: "isfile (oebps st) (py_replace ''.html'' ''.xhtml'' f)"
    using assms(1) t by (auto simp: materialized_def split: sum.splits json.splits)
  obtain i where i: "py_index c book_chapters = Some i"
    using py_index_Some [OF assms(2)] by blast
  show ?thesis
    using t f ex i
    by (auto simp: chapter_exists_def info_def same_files_def Let_def)
qed

lemma get_all_exist:
  assumes "list_all (materialized st) chapters_queue"
    and "set chapters_queue \<subseteq> set book_chapters"
  shows "\<exists>st'. get E book_chapters chapters_queue st = (Inr (), st') \<and> same_files st st'"
  using assms
proof (induction chapters_queue arbitrary: st)
  case Nil
  show ?case by (simp add: same_files_def)
next
  case (Cons c chapters_queue)
  have m: "materialized st c" and c: "c \<in> set book_chapters"
    using Cons.prems by simp_all
  obtain st2 where s: "get E book_chapters (c # chapters_queue) st =
      get E book_chapters chapters_queue st2" and sf: "same_files st st2"
    using get_chapter_exists [OF m c] by blast
  have "list_all (materialized st2) chapters_queue"
    using Cons.prems(1) sf
    by (simp add: list_all_iff materialized_same_files [of st2 st] same_files_def)
  moreover have "set chapters_queue \<subseteq> set book_chapters"
    using Cons.prems(2) by simp
  ultimately obtain st' where r: "get E book_chapters chapters_queue st2 = (Inr (), st')"
    and sf': "same_files st2 st'"
    using Cons.IH by blast
  show ?case
    unfolding s r using sf sf' by (auto simp: same_files_def)
qed

text \<open>
  C8. When the file of the first chapter of the queue exists, \<open>get\<close> goes on to the rest
  of the queue from a state in which nothing more was requested and every file is as it
  was: no request for the chapter, no write. So when the file of every chapter of the
  queue exists, \<open>get\<close> returns without a failure, having requested nothing and with every
  file as it was. (The chapters of the queue are chapters of the book, as in \<open>__init__\<close>,
  where the queue is a copy of the chapter list.)
\<close>

theorem get_skips_existing_chapters:
  "(materialized st c \<and> c \<in> set book_chapters \<longrightarrow>
      (\<exists>st2. get E book_chapters (c # rest) st = get E book_chapters rest st2
             \<and> same_files st st2))
   \<and> (list_all (materialized st) chapters_queue \<and> set chapters_queue \<subseteq> set book_chapters \<longrightarrow>
      (\<exists>st'. get E book_chapters chapters_queue st = (Inr (), st') \<and> same_files st st'))"
  using get_chapter_exists [of st c book_chapters E rest]
    get_all_exist [of st chapters_queue book_chapters E]
  by blast

text \<open>The theorem at a book of two chapters that are both on disk.\<close>

theorem get_skips_existing_chapters_witness:
  "\<exists>st'. get example_env [chapter_rec ''ch01.html'', chapter_rec ''ch02.html'']
            [chapter_rec ''ch01.html'', chapter_rec ''ch02.html''] crawled = (Inr (), st')
         \<and> requests st' = [] \<and> oebps st' = oebps crawled"
proof -
  have m: "list_all (materialized crawled) [chapter_rec ''ch01.html'', chapter_rec ''ch02.html'']"
    by (simp add: materialized_def crawled_def chapter_rec_def isfile_def py_replace_def
          init_state_def)
  show ?thesis
    using get_skips_existing_chapters
            [of crawled "chapter_rec ''ch01.html''"
                "[chapter_rec ''ch01.html'', chapter_rec ''ch02.html'']" example_env
                "[chapter_rec ''ch02.html'']"
                "[chapter_rec ''ch01.html'', chapter_rec ''ch02.html'']"] m
    by (auto simp: same_files_def crawled_def init_state_def)
qed

section \<open>_start_multiprocessing\<close>

text \<open>The slices the loop takes are the batches, so the method runs the batches one
  after the other.\<close>

lemma batches_Nil: "batches [] = []"
  by (simp add: batches.simps)

lemma batches_short: "xs \<noteq> [] \<Longrightarrow> length xs \<le> 5 \<Longrightarrow> batches xs = [xs]"
  by (subst batches.simps) (simp add: batches_Nil)

lemma range5_Suc:
  "n \<noteq> 0 \<Longrightarrow> range5 n = 0 # map (\<lambda>i. i + 5) (range5 (n - 5))"
proof -
  assume n: "n \<noteq> 0"
  have d: "(n + 4) div 5 = Suc ((n - 5 + 4) div 5)"
    using n by (cases "5 \<le> n") (auto simp: div_eq_0_iff le_div_geq)
  have "[0 ..< Suc m] = 0 # map Suc [0 ..< m]" for m
    by (simp add: map_Suc_upt upt_conv_Cons del: upt_Suc)
  then show ?thesis
    unfolding range5_def d by (simp add: comp_def del: upt_Suc)
qed

lemma batches_range5:
  "batches q = map (\<lambda>i. take 5 (drop i q)) (range5 (length q))"
proof (induction q rule: batches.induct)
  case (1 xs)
  show ?case
  proof (cases "xs = []")
    case True
    then show ?thesis by (simp add: batches_Nil range5_def)
  next
    case False
    then have n: "length xs \<noteq> 0" by simp
    have "batches xs = take 5 xs # batches (drop 5 xs)"
      using False by (subst batches.simps) simp
    also have "batches (drop 5 xs) = map (\<lambda>i. take 5 (drop i (drop 5 xs))) (range5 (length xs - 5))"
      using "1.IH" [OF False] by simp
    finally show ?thesis
      unfolding range5_Suc [OF n] by (simp add: comp_def add.commute)
  qed
qed

lemma start_multiprocessing_short:
  "length q \<le> 5 \<Longrightarrow>
   start_multiprocessing operation q has_queue st =
     run_batch operation q (if has_queue then st else st\<lparr>done_queue := 0\<rparr>)"
  by (subst start_multiprocessing.simps) (simp add: run_batch_def Let_def)

lemma run_batch_Nil: "run_batch operation [] st = st"
  by (simp add: run_batch_def)

lemma start_multiprocessing_batches:
  "start_multiprocessing operation q has_queue st =
     fold (run_batch operation) (batches q) (if has_queue then st else st\<lparr>done_queue := 0\<rparr>)"
proof (cases "length q \<le> 5")
  case True
  then show ?thesis
    by (cases "q = []")
       (simp_all add: start_multiprocessing_short batches_Nil batches_short run_batch_Nil)
next
  case False
  have inner: "start_multiprocessing operation (take 5 (drop i q)) True =
               run_batch operation (take 5 (drop i q))" for i
    by (rule ext) (simp add: start_multiprocessing_short)
  have "start_multiprocessing operation q has_queue st =
          fold (\<lambda>i s. run_batch operation (take 5 (drop i q)) s) (range5 (length q))
            (if has_queue then st else st\<lparr>done_queue := 0\<rparr>)"
    using False by (subst start_multiprocessing.simps) (simp add: inner Let_def)
  also have "\<dots> = fold (run_batch operation) (map (\<lambda>i. take 5 (drop i q)) (range5 (length q)))
                     (if has_queue then st else st\<lparr>done_queue := 0\<rparr>)"
    by (simp add: fold_map comp_def)
  finally show ?thesis
    by (simp add: batches_range5)
qed

text \<open>The batches of a queue, and the events of running them.\<close>

lemma batches_props:
  "concat (batches q) = q \<and> (\<forall>b \<in> set (batches q). b \<noteq> [] \<and> length b \<le> 5)"
proof (induction q rule: batches.induct)
  case (1 xs)
  show ?case
  proof (cases "xs = []")
    case True
    then show ?thesis by (simp add: batches_Nil)
  next
    case False
    have b: "batches xs = take 5 xs # batches (drop 5 xs)"
      using False by (subst batches.simps) simp
    show ?thesis
      unfolding b using "1.IH" [OF False] False by auto
  qed
qed

lemma events_run_batch:
  assumes "\<And>arg s. events (snd (operation arg s)) = events s"
  shows "events (run_batch operation b st) = events st @ batch_events b"
proof -
  have s: "events (fold proc_start xs s) = events s @ map Started xs" for xs s
    by (induction xs arbitrary: s) (simp_all add: proc_start_def)
  have j: "events (fold (proc_join operation) xs s) = events s @ map Joined xs" for xs s
    by (induction xs arbitrary: s) (simp_all add: proc_join_def Let_def assms)
  show ?thesis
    by (simp add: run_batch_def s j batch_events_def)
qed

lemma events_batches:
  assumes "\<And>arg s. events (snd (operation arg s)) = events s"
  shows "events (fold (run_batch operation) bs st) = events st @ concat (map batch_events bs)"
  by (induction bs arbitrary: st) (simp_all add: events_run_batch [OF assms])

text \<open>Within a batch no more processes run than the batch has, and none after it.\<close>

lemma running_append: "running (xs @ ys) = running xs + running ys"
  by (induction xs rule: running.induct) auto

lemma running_Started: "running (map Started xs) = int (length xs)"
  by (induction xs) auto

lemma running_Joined: "running (map Joined xs) = - int (length xs)"
  by (induction xs) auto

lemma running_batch_prefix:
  "0 \<le> running (take k (batch_events b)) \<and> running (take k (batch_events b)) \<le> int (length b)"
  by (auto simp: batch_events_def running_append take_map running_Started running_Joined)

lemma running_batch: "running (batch_events b) = 0"
  by (simp add: batch_events_def running_append running_Started running_Joined)

lemma running_batches_prefix:
  "\<forall>b \<in> set bs. length b \<le> n \<Longrightarrow>
   running (take k (concat (map batch_events bs))) \<le> int n"
proof (induction bs arbitrary: k)
  case Nil
  show ?case by simp
next
  case (Cons b bs)
  show ?case
  proof (cases "k \<le> length (batch_events b)")
    case True
    then show ?thesis
      using running_batch_prefix [of k b] Cons.prems by simp
  next
    case False
    then show ?thesis
      using Cons.IH [of "k - length (batch_events b)"] Cons.prems
      by (simp add: running_append running_batch)
  qed
qed

lemma length_batches:
  "map length (batches q) =
     replicate (length q div 5) 5 @ (if length q mod 5 = 0 then [] else [length q mod 5])"
proof (induction q rule: batches.induct)
  case (1 xs)
  show ?case
  proof (cases "xs = []")
    case True
    then show ?thesis by (simp add: batches_Nil)
  next
    case False
    have b: "batches xs = take 5 xs # batches (drop 5 xs)"
      using False by (subst batches.simps) simp
    show ?thesis
    proof (cases "5 \<le> length xs")
      case True
      then have "length xs div 5 = Suc ((length xs - 5) div 5)"
        and "length xs mod 5 = (length xs - 5) mod 5"
        by (simp_all add: le_div_geq le_mod_geq)
      then show ?thesis
        unfolding b using "1.IH" [OF False] True by simp
    next
      case False
      then have "drop 5 xs = []" by simp
      then show ?thesis
        unfolding b using False \<open>xs \<noteq> []\<close> by (simp add: batches_Nil)
    qed
  qed
qed

text \<open>The two operations of the program leave the events alone.\<close>

lemma thread_download_css_events:
  "events (snd (thread_download_css E url s)) = events s"
  by (auto simp: thread_download_css_def requests_provider_def error_def info_def Let_def
        split: option.splits)


text \<open>
  C9. For an operation that does not touch the record of events (as the two downloads
  do not), \<open>_start_multiprocessing\<close> starts and joins the processes batch by batch: the
  events it adds are, for each batch of the queue in order, the start of every process
  of the batch and then the join of every process of the batch, so a batch is joined
  completely before the next is started. The batches are consecutive slices of the
  queue of five items each, and a last one with the remainder; at no point of the run are
  more than five processes started and not yet joined; for 12 items the batches have 5,
  5 and 2 items.
\<close>

theorem start_multiprocessing_batches_of_five:
  assumes "\<forall>arg s. events (snd (operation arg s)) = events s"
  shows "events (start_multiprocessing operation full_queue has_queue st) =
           events st @ concat (map batch_events (batches full_queue))
         \<and> concat (batches full_queue) = full_queue
         \<and> map length (batches full_queue) =
             replicate (length full_queue div 5) 5 @
             (if length full_queue mod 5 = 0 then [] else [length full_queue mod 5])
         \<and> (\<forall>k. running (take k (concat (map batch_events (batches full_queue)))) \<le> 5)
         \<and> (length full_queue = 12 \<longrightarrow> map length (batches full_queue) = [5, 5, 2])"
proof -
  have e: "events (start_multiprocessing operation full_queue has_queue st) =
           events st @ concat (map batch_events (batches full_queue))"
    using assms by (simp add: start_multiprocessing_batches events_batches)
  have r: "running (take k (concat (map batch_events (batches full_queue)))) \<le> 5" for k
    using running_batches_prefix [of "batches full_queue" 5 k] batches_props [of full_queue]
    by simp
  have t: "map length (batches full_queue) = [5, 5, 2]" if "length full_queue = 12"
    unfolding length_batches that by (simp add: numeral_2_eq_2)
  show ?thesis
    using e r t batches_props [of full_queue] length_batches [of full_queue] by blast
qed

text \<open>The theorem at twelve stylesheets.\<close>

lemma batches_twelve:
  "batches twelve = [[''a'', ''b'', ''c'', ''d'', ''e''], [''f'', ''g'', ''h'', ''i'', ''j''],
                     [''k'', ''l'']]"
  by code_simp

theorem start_multiprocessing_batches_of_five_witness:
  "events (start_multiprocessing (thread_download_css example_env) twelve False
            (init_state\<lparr>css := twelve\<rparr>)) =
     map Started [''a'', ''b'', ''c'', ''d'', ''e''] @ map Joined [''a'', ''b'', ''c'', ''d'', ''e'']
     @ map Started [''f'', ''g'', ''h'', ''i'', ''j''] @ map Joined [''f'', ''g'', ''h'', ''i'', ''j'']
     @ map Started [''k'', ''l''] @ map Joined [''k'', ''l'']
   \<and> map length (batches twelve) = [5, 5, 2]"
proof -
  have h: "\<forall>arg s. events (snd (thread_download_css example_env arg s)) = events s"
    by (simp add: thread_download_css_events)
  have l: "length twelve = 12" by (simp add: twelve_def)
  show ?thesis
    using start_multiprocessing_batches_of_five
            [OF h, of twelve False "init_state\<lparr>css := twelve\<rparr>"] l
    by (simp add: batches_twelve batch_events_def init_state_def)
qed

section \<open>A download that fails\<close>



























end
